theory Spec2Isabelle
  imports Main "HOL-Library.List_Lexorder" "HOL-Library.AList" "HOL-Library.Sublist"
begin

section \<open>Python strings\<close>

text \<open>
  A Python \<^verbatim>\<open>str\<close> is a sequence of Unicode code points, so it is modelled as a
  list of natural numbers: \<open>length\<close> and \<open>take\<close> count code points as \<^verbatim>\<open>len\<close> and
  slicing do, and the order of \<^verbatim>\<open>sorted\<close> is the lexicographic order of the lists.
  Literals of the source are written \<open>py ''...''\<close>; the three non-ASCII characters
  of its messages are given by their code points.
\<close>

type_synonym pystr = "nat list"

definition py :: "string \<Rightarrow> pystr" where
  "py s = map of_char s"

text \<open>
  \<^verbatim>\<open>str.strip()\<close> removes the characters for which CPython's \<^verbatim>\<open>Py_UNICODE_ISSPACE\<close>
  holds: U+0009..U+000D, U+001C..U+0020, U+0085, U+00A0, U+1680, U+2000..U+200A,
  U+2028, U+2029, U+202F, U+205F and U+3000.
\<close>

definition isspace :: "nat \<Rightarrow> bool" where
  "isspace c =
     ((9 \<le> c \<and> c \<le> 13) \<or> (28 \<le> c \<and> c \<le> 32) \<or> c = 133 \<or> c = 160 \<or> c = 5760
      \<or> (8192 \<le> c \<and> c \<le> 8202) \<or> c = 8232 \<or> c = 8233 \<or> c = 8239 \<or> c = 8287
      \<or> c = 12288)"

definition strip :: "pystr \<Rightarrow> pystr" where
  "strip s = rev (dropWhile isspace (rev (dropWhile isspace s)))"

text \<open>\<^verbatim>\<open>s.lstrip(chars)\<close>: drops the leading characters that occur in \<open>chars\<close>.\<close>

definition lstrip_chars :: "pystr \<Rightarrow> pystr \<Rightarrow> pystr" where
  "lstrip_chars chars s = dropWhile (\<lambda>c. c \<in> set chars) s"

definition startswith :: "pystr \<Rightarrow> pystr \<Rightarrow> bool" where
  "startswith s p = (take (length p) s = p)"

definition endswith :: "pystr \<Rightarrow> pystr \<Rightarrow> bool" where
  "endswith s p = (length p \<le> length s \<and> drop (length s - length p) s = p)"

text \<open>\<^verbatim>\<open>sub in s\<close>: \<open>sub\<close> occurs in \<open>s\<close> as a contiguous substring.\<close>

fun contains :: "pystr \<Rightarrow> pystr \<Rightarrow> bool" where
  "contains sub [] = (sub = [])"
| "contains sub (c # cs) = (startswith (c # cs) sub \<or> contains sub cs)"

text \<open>
  \<^verbatim>\<open>s.split("\n")\<close>, with the separator \<open>d\<close> a single character: the pieces between the
  separators, \<^verbatim>\<open>[""]\<close> for the empty string.
\<close>

fun split_on :: "nat \<Rightarrow> pystr \<Rightarrow> pystr list" where
  "split_on d [] = [[]]"
| "split_on d (c # cs) =
     (if c = d then [] # split_on d cs
      else (c # hd (split_on d cs)) # tl (split_on d cs))"

text \<open>\<^verbatim>\<open>sep.join(xs)\<close>.\<close>

fun join :: "pystr \<Rightarrow> pystr list \<Rightarrow> pystr" where
  "join sep [] = []"
| "join sep [x] = x"
| "join sep (x # y # ys) = x @ sep @ join sep (y # ys)"

text \<open>
  \<^verbatim>\<open>str.lower()\<close> on the ASCII letters. The source lowers a topic only after the pattern
  has matched it, so every character it meets there is ASCII.
\<close>

definition lower :: "pystr \<Rightarrow> pystr" where
  "lower s = map (\<lambda>c. if 65 \<le> c \<and> c \<le> 90 then c + 32 else c) s"

section \<open>Errors\<close>

text \<open>
  The exceptions the source raises or lets through. \<open>ValueError\<close> carries its message,
  which the handlers print; the others are the \<^verbatim>\<open>OSError\<close>s and \<^verbatim>\<open>UnicodeError\<close>s of
  the file operations.
\<close>

datatype py_error =
    ValueError pystr
  | FileNotFoundError
  | IsADirectoryError
  | NotADirectoryError
  | FileExistsError
  | UnicodeDecodeError
  | UnicodeEncodeError

section \<open>Sanitization\<close>

definition INDEX_FILE :: pystr where
  "INDEX_FILE = py ''_index.md''"

text \<open>The character classes \<^verbatim>\<open>[a-zA-Z0-9]\<close> and \<^verbatim>\<open>[a-zA-Z0-9_.-]\<close>.\<close>

definition alnum :: "nat \<Rightarrow> bool" where
  "alnum c = ((97 \<le> c \<and> c \<le> 122) \<or> (65 \<le> c \<and> c \<le> 90) \<or> (48 \<le> c \<and> c \<le> 57))"

definition topic_char :: "nat \<Rightarrow> bool" where
  "topic_char c = (alnum c \<or> c = 95 \<or> c = 46 \<or> c = 45)"

text \<open>
  The two alternatives of \<^verbatim>\<open>_VALID_TOPIC\<close> between their anchors:
  \<^verbatim>\<open>[a-zA-Z0-9][a-zA-Z0-9_.-]{0,98}[a-zA-Z0-9]\<close> and \<^verbatim>\<open>[a-zA-Z0-9]\<close>.
\<close>

definition topic_body :: "pystr \<Rightarrow> bool" where
  "topic_body s =
     ((2 \<le> length s \<and> length s \<le> 100 \<and> alnum (hd s) \<and> list_all topic_char (butlast (tl s))
        \<and> alnum (last s))
      \<or> (length s = 1 \<and> alnum (hd s)))"

text \<open>
  \<^verbatim>\<open>_VALID_TOPIC.match(s)\<close>. Without \<^verbatim>\<open>re.MULTILINE\<close>, \<^verbatim>\<open>$\<close> matches at the end of the
  string and also just before a newline that ends the string.
\<close>

definition VALID_TOPIC :: "pystr \<Rightarrow> bool" where
  "VALID_TOPIC s = (topic_body s \<or> (s \<noteq> [] \<and> last s = 10 \<and> topic_body (butlast s)))"

definition RESERVED :: "pystr list" where
  "RESERVED = [py ''_index'', py ''con'', py ''prn'', py ''aux'', py ''nul'']"

definition sanitize_topic :: "pystr \<Rightarrow> py_error + pystr" where
  "sanitize_topic topic0 =
     (if topic0 = [] then Inl (ValueError (py ''Topic must be a non-empty string''))
      else
        let topic = strip topic0 in
        if contains (py ''/'') topic \<or> contains [92] topic \<or> contains (py ''..'') topic
        then Inl (ValueError (py ''Invalid characters in topic: '' @ topic))
        else if \<not> VALID_TOPIC topic
        then Inl (ValueError (py ''Invalid topic name: '' @ topic
                     @ py ''. Use alphanumeric, underscore, hyphen, dot.''))
        else if lower topic \<in> set RESERVED
        then Inl (ValueError (py ''Reserved topic name: '' @ topic))
        else Inr topic)"

text \<open>
  The Sanitizer's rule as the specification words it, on the trimmed string: empty, longer
  than 100 characters, a character outside letters, digits, underscore, hyphen and dot, a
  slash, a backslash or the parent-directory token, a first or last character that is not
  alphanumeric, or a reserved word in any letter case.
\<close>

definition spec_rejects :: "pystr \<Rightarrow> bool" where
  "spec_rejects t =
     (t = [] \<or> 100 < length t \<or> (\<exists>c \<in> set t. \<not> topic_char c)
      \<or> contains (py ''/'') t \<or> contains [92] t \<or> contains (py ''..'') t
      \<or> \<not> alnum (hd t) \<or> \<not> alnum (last t)
      \<or> (\<exists>r \<in> set RESERVED. lower t = lower r))"

section \<open>The file system\<close>

text \<open>
  The store sees the file system through \<^verbatim>\<open>pathlib\<close>: the knowledge directory
  \<^verbatim>\<open>kdir = ctx.drive_path(KNOWLEDGE_DIR)\<close> and its children \<^verbatim>\<open>kdir / name\<close>. The host's
  \<^verbatim>\<open>drive_path\<close> is outside the source, so the directory is taken as given: the state
  holds \<open>kreal\<close>, the canonical absolute path that \<^verbatim>\<open>kdir.resolve()\<close> returns.

  \<^item> \<open>nodes\<close> maps a canonical path to what is stored there: a directory, a text file
    with its decoded text, or a file whose bytes are not UTF-8.
  \<^item> \<open>links\<close> lists the symbolic links that stand directly in the knowledge directory,
    each with the canonical path it finally leads to (a chain of links is given by its
    end). A link may lead outside the directory, to another entry, or nowhere.
  \<^item> \<open>oplog\<close> records every file operation in order, with the canonical path it acts on.

  Not modelled: permissions and a symbolic-link loop.
\<close>

datatype node = Dir | File pystr | Undecodable

datatype path = Base | Child pystr

datatype fsop = OpExists pystr | OpRead pystr | OpWrite pystr | OpMkdir pystr | OpList pystr

record fs =
  kreal :: pystr
  links :: "(pystr \<times> pystr) list"
  nodes :: "(pystr \<times> node) list"
  oplog :: "fsop list"

fun op_target :: "fsop \<Rightarrow> pystr" where
  "op_target (OpExists c) = c"
| "op_target (OpRead c) = c"
| "op_target (OpWrite c) = c"
| "op_target (OpMkdir c) = c"
| "op_target (OpList c) = c"

fun is_mutation :: "fsop \<Rightarrow> bool" where
  "is_mutation (OpWrite c) = True"
| "is_mutation (OpMkdir c) = True"
| "is_mutation e = False"

definition logop :: "fsop \<Rightarrow> fs \<Rightarrow> fs" where
  "logop e s = s\<lparr>oplog := oplog s @ [e]\<rparr>"

text \<open>The canonical path of the child \<open>n\<close> of the directory with canonical path \<open>d\<close>.\<close>

definition child :: "pystr \<Rightarrow> pystr \<Rightarrow> pystr" where
  "child d n = (if d = py ''/'' then d @ n else d @ py ''/'' @ n)"

text \<open>
  \<^verbatim>\<open>str(p.resolve())\<close>: the directory resolves to \<open>kreal\<close>; a child that is a symbolic
  link resolves to where the link leads, any other child to its place in the directory.
\<close>

definition resolve :: "fs \<Rightarrow> path \<Rightarrow> pystr" where
  "resolve s p =
     (case p of
        Base \<Rightarrow> kreal s
      | Child n \<Rightarrow> (case map_of (links s) n of Some t \<Rightarrow> t | None \<Rightarrow> child (kreal s) n))"

text \<open>The directory that holds the canonical path \<open>c\<close>.\<close>

definition dirname :: "pystr \<Rightarrow> pystr" where
  "dirname c =
     (let d = rev (tl (dropWhile (\<lambda>x. x \<noteq> 47) (rev c))) in if d = [] then py ''/'' else d)"

text \<open>\<^verbatim>\<open>p.exists()\<close> follows links; a link that leads nowhere does not exist.\<close>

definition path_exists :: "fs \<Rightarrow> path \<Rightarrow> bool \<times> fs" where
  "path_exists s p =
     (map_of (nodes s) (resolve s p) \<noteq> None, logop (OpExists (resolve s p)) s)"

text \<open>
  Text files are opened with the default \<^verbatim>\<open>newline=None\<close>. On reading that is
  universal-newlines mode: \<^verbatim>\<open>\r\n\<close> and a lone \<^verbatim>\<open>\r\<close> both come back as \<^verbatim>\<open>\n\<close>. On
  writing \<^verbatim>\<open>\n\<close> becomes \<^verbatim>\<open>os.linesep\<close>, which is \<^verbatim>\<open>\n\<close> itself on the POSIX systems the
  source's \<^verbatim>\<open>"/"\<close> comparison is written for, so the text is stored as given.
\<close>

fun universal_newlines :: "pystr \<Rightarrow> pystr" where
  "universal_newlines [] = []"
| "universal_newlines [c] = [if c = 13 then 10 else c]"
| "universal_newlines (c # d # cs) =
     (if c = 13 \<and> d = 10 then 10 # universal_newlines cs
      else if c = 13 then 10 # universal_newlines (d # cs)
      else c # universal_newlines (d # cs))"

text \<open>\<^verbatim>\<open>p.read_text(encoding="utf-8")\<close>.\<close>

definition read_text :: "fs \<Rightarrow> path \<Rightarrow> (py_error + pystr) \<times> fs" where
  "read_text s p =
     (let c = resolve s p; s' = logop (OpRead c) s in
      case map_of (nodes s) c of
        None \<Rightarrow> (Inl FileNotFoundError, s')
      | Some Dir \<Rightarrow> (Inl IsADirectoryError, s')
      | Some Undecodable \<Rightarrow> (Inl UnicodeDecodeError, s')
      | Some (File b) \<Rightarrow> (Inr (universal_newlines b), s'))"

text \<open>A string with a surrogate code point (U+D800..U+DFFF) has no UTF-8 encoding.\<close>

definition encodable :: "pystr \<Rightarrow> bool" where
  "encodable data = list_all (\<lambda>c. c < 55296 \<or> 57343 < c) data"

text \<open>
  \<^verbatim>\<open>p.write_text(data, encoding="utf-8")\<close>. Opening for writing fails on a directory and
  where the holding directory is missing; otherwise it creates or empties the file, so
  a string that then fails to encode leaves an empty file behind.
\<close>

definition write_text :: "fs \<Rightarrow> path \<Rightarrow> pystr \<Rightarrow> (py_error + unit) \<times> fs" where
  "write_text s p data =
     (let c = resolve s p; s' = logop (OpWrite c) s in
      if map_of (nodes s) c = Some Dir then (Inl IsADirectoryError, s')
      else
        (case map_of (nodes s) (dirname c) of
           None \<Rightarrow> (Inl FileNotFoundError, s')
         | Some Dir \<Rightarrow>
             if encodable data
             then (Inr (), s'\<lparr>nodes := AList.update c (File data) (nodes s)\<rparr>)
             else (Inl UnicodeEncodeError, s'\<lparr>nodes := AList.update c (File []) (nodes s)\<rparr>)
         | Some other \<Rightarrow> (Inl NotADirectoryError, s')))"

text \<open>
  The directories above the canonical path \<open>c\<close>, the nearest first and the root last:
  for \<^verbatim>\<open>/a/b/c\<close> they are \<^verbatim>\<open>/a/b\<close>, \<^verbatim>\<open>/a\<close> and \<^verbatim>\<open>/\<close>; the root has none.
\<close>

fun ancestors_from :: "pystr \<Rightarrow> pystr \<Rightarrow> pystr list" where
  "ancestors_from seen [] = []"
| "ancestors_from seen (x # xs) =
     (if x = 47 then ancestors_from (seen @ [x]) xs @ [if seen = [] then [47] else seen]
      else ancestors_from (seen @ [x]) xs)"

definition ancestors :: "pystr \<Rightarrow> pystr list" where
  "ancestors c = filter (\<lambda>d. d \<noteq> c) (ancestors_from [] c)"

text \<open>
  \<^verbatim>\<open>p.mkdir(parents=True, exist_ok=True)\<close>, as \<^verbatim>\<open>pathlib\<close> writes it: \<^verbatim>\<open>os.mkdir\<close> is tried
  on the path; a path that exists is accepted if it is a directory; where the parent is
  missing, the parent is made in the same way first and \<^verbatim>\<open>os.mkdir\<close> is tried again. \<open>ups\<close>
  are the directories above \<open>c\<close>. The result holds the nodes and the paths on which
  \<^verbatim>\<open>os.mkdir\<close> was tried, in order.
\<close>

fun mkdir_parents ::
    "(pystr \<times> node) list \<Rightarrow> pystr \<Rightarrow> pystr list
     \<Rightarrow> (py_error + unit) \<times> (pystr \<times> node) list \<times> pystr list" where
  "mkdir_parents ns c [] =
     (case map_of ns c of
        Some Dir \<Rightarrow> (Inr (), ns, [c])
      | Some other \<Rightarrow> (Inl FileExistsError, ns, [c])
      | None \<Rightarrow> (Inl FileNotFoundError, ns, [c]))"
| "mkdir_parents ns c (par # rest) =
     (case map_of ns c of
        Some Dir \<Rightarrow> (Inr (), ns, [c])
      | Some other \<Rightarrow> (Inl FileExistsError, ns, [c])
      | None \<Rightarrow>
          (case map_of ns par of
             Some Dir \<Rightarrow> (Inr (), AList.update c Dir ns, [c])
           | Some other \<Rightarrow> (Inl NotADirectoryError, ns, [c])
           | None \<Rightarrow>
               (case mkdir_parents ns par rest of
                  (Inl e, ns1, tried) \<Rightarrow> (Inl e, ns1, c # tried)
                | (Inr u, ns1, tried) \<Rightarrow>
                    (Inr (), AList.update c Dir ns1, c # tried @ [c]))))"

definition mkdir :: "fs \<Rightarrow> path \<Rightarrow> (py_error + unit) \<times> fs" where
  "mkdir s p =
     (let c = resolve s p in
      case mkdir_parents (nodes s) c (ancestors c) of
        (r, ns, tried) \<Rightarrow> (r, s\<lparr>nodes := ns, oplog := oplog s @ map OpMkdir tried\<rparr>))"

text \<open>
  The name under which the canonical path \<open>c\<close> stands directly in the directory \<open>d\<close>, if
  it does.
\<close>

definition child_name :: "pystr \<Rightarrow> pystr \<Rightarrow> pystr option" where
  "child_name d c =
     (let pre = (if d = py ''/'' then d else d @ py ''/''); n = drop (length pre) c in
      if startswith c pre \<and> n \<noteq> [] \<and> 47 \<notin> set n then Some n else None)"

text \<open>
  The names in the knowledge directory: its symbolic links and the nodes stored directly
  in it. A path that is not a directory lists nothing.
\<close>

definition listdir :: "fs \<Rightarrow> pystr list" where
  "listdir s =
     (if map_of (nodes s) (kreal s) = Some Dir
      then remdups (map fst (links s) @ List.map_filter (child_name (kreal s)) (map fst (nodes s)))
      else [])"

text \<open>
  \<^verbatim>\<open>sorted(kdir.glob("*.md"))\<close>, as the names of the paths: \<^verbatim>\<open>glob\<close> yields every name of
  the directory that ends in \<^verbatim>\<open>.md\<close> (files, directories and links alike), and paths of
  one directory are ordered by their names.
\<close>

definition glob_md :: "fs \<Rightarrow> pystr list" where
  "glob_md s = sort (filter (\<lambda>n. endswith n (py ''.md'')) (listdir s))"

definition sorted_glob :: "fs \<Rightarrow> pystr list \<times> fs" where
  "sorted_glob s = (glob_md s, logop (OpList (kreal s)) s)"

text \<open>\<^verbatim>\<open>f.stem\<close>: the name without its last suffix.\<close>

definition stem :: "pystr \<Rightarrow> pystr" where
  "stem name =
     (if 46 \<in> set name
      then
        let i = length name - length (takeWhile (\<lambda>c. c \<noteq> 46) (rev name)) - 1 in
        if 0 < i \<and> i < length name - 1 then take i name else name
      else name)"

section \<open>Path resolution\<close>

definition safe_path :: "fs \<Rightarrow> pystr \<Rightarrow> py_error + path" where
  "safe_path s topic0 =
     (case sanitize_topic topic0 of
        Inl e \<Rightarrow> Inl e
      | Inr topic \<Rightarrow>
          let path = Child (topic @ py ''.md'');
              resolved = resolve s path;
              kdir_resolved = resolve s Base
          in
            if \<not> startswith resolved (kdir_resolved @ py ''/'') \<and> resolved \<noteq> kdir_resolved
            then Inl (ValueError (py ''Path escape detected: '' @ topic))
            else Inr path)"

text \<open>
  Containment as the specification words it, by path components: the components of the
  base are a prefix of the components of the candidate, so the candidate is the base
  itself or lies below it. Canonical paths are absolute, so a path is given by its
  non-empty components.
\<close>

definition path_parts :: "pystr \<Rightarrow> pystr list" where
  "path_parts c = filter (\<lambda>w. w \<noteq> []) (split_on 47 c)"

definition contained :: "pystr \<Rightarrow> pystr \<Rightarrow> bool" where
  "contained b c = prefix (path_parts b) (path_parts c)"

section \<open>The index\<close>

definition ensure_dir :: "fs \<Rightarrow> (py_error + unit) \<times> fs" where
  "ensure_dir s = mkdir s Base"

text \<open>
  The loop over the lines of an entry: each line is stripped, loses its leading \<^verbatim>\<open>#\<close>
  characters and is stripped again; the first line of which something is left gives
  the summary, cut to 120 characters.
\<close>

definition clean_line :: "pystr \<Rightarrow> pystr" where
  "clean_line l = strip (lstrip_chars (py ''#'') (strip l))"

fun first_line :: "pystr list \<Rightarrow> pystr" where
  "first_line [] = []"
| "first_line (l # ls) =
     (let line = clean_line l in
      if line \<noteq> [] then take 120 line else first_line ls)"

definition summary :: "pystr \<Rightarrow> pystr" where
  "summary content = first_line (split_on 10 (strip content))"

text \<open>The entry of one topic: \<^verbatim>\<open>except Exception\<close> catches every failure of the read.\<close>

definition entry_line :: "pystr \<Rightarrow> py_error + pystr \<Rightarrow> pystr" where
  "entry_line topic r =
     (case r of
        Inr content \<Rightarrow> py ''- **'' @ topic @ py ''**: '' @ summary content
      | Inl e \<Rightarrow> py ''- **'' @ topic @ py ''**: (unreadable)'')"

fun index_entries :: "fs \<Rightarrow> pystr list \<Rightarrow> pystr list \<times> fs" where
  "index_entries s [] = ([], s)"
| "index_entries s (n # ns) =
     (if n = INDEX_FILE then index_entries s ns
      else
        (case read_text s (Child n) of
           (r, s1) \<Rightarrow>
             (case index_entries s1 ns of
                (es, s2) \<Rightarrow> (entry_line (stem n) r # es, s2))))"

definition index_content :: "pystr list \<Rightarrow> pystr" where
  "index_content entries =
     py ''# Knowledge Base Index'' @ [10, 10]
     @ (if entries \<noteq> [] then join [10] entries @ [10] else py ''(empty)'' @ [10])"

definition update_index :: "fs \<Rightarrow> (py_error + unit) \<times> fs" where
  "update_index s =
     (case path_exists s Base of
        (ex, s1) \<Rightarrow>
          if \<not> ex then (Inr (), s1)
          else
            (case sorted_glob s1 of
               (names, s2) \<Rightarrow>
                 (case index_entries s2 names of
                    (entries, s3) \<Rightarrow>
                      write_text s3 (Child INDEX_FILE) (index_content entries))))"

section \<open>The tool handlers\<close>

text \<open>
  A handler returns the string the caller sees (\<open>Inr\<close>) or lets an exception through
  (\<open>Inl\<close>), together with the file system it leaves. \<open>WARN\<close> is U+26A0 U+FE0F and
  \<open>CHECK\<close> is U+2705; 39 is the apostrophe.
\<close>

definition WARN :: pystr where
  "WARN = [9888, 65039]"

definition CHECK :: pystr where
  "CHECK = [9989]"

definition invalid_topic_msg :: "pystr \<Rightarrow> pystr" where
  "invalid_topic_msg e = WARN @ py '' Invalid topic: '' @ e"

definition not_found_msg :: "pystr \<Rightarrow> pystr" where
  "not_found_msg topic =
     py ''Topic '' @ [39] @ topic @ [39]
     @ py '' not found. Use knowledge_list to see available topics.''"

definition invalid_mode_msg :: "pystr \<Rightarrow> pystr" where
  "invalid_mode_msg mode =
     WARN @ py '' Invalid mode '' @ [39] @ mode @ [39] @ py ''. Use '' @ [39]
     @ py ''overwrite'' @ [39] @ py '' or '' @ [39] @ py ''append'' @ [39] @ py ''.''"

definition saved_msg :: "pystr \<Rightarrow> pystr \<Rightarrow> pystr" where
  "saved_msg topic mode =
     CHECK @ py '' Knowledge '' @ [39] @ topic @ [39] @ py '' saved ('' @ mode @ py '').''"

definition empty_msg :: pystr where
  "empty_msg = py ''Knowledge base is empty. Use knowledge_write to add topics.''"

definition knowledge_read :: "fs \<Rightarrow> pystr \<Rightarrow> (py_error + pystr) \<times> fs" where
  "knowledge_read s topic =
     (case safe_path s topic of
        Inl (ValueError e) \<Rightarrow> (Inr (invalid_topic_msg e), s)
      | Inl other \<Rightarrow> (Inl other, s)
      | Inr path \<Rightarrow>
          (case path_exists s path of
             (ex, s1) \<Rightarrow>
               if \<not> ex then (Inr (not_found_msg topic), s1)
               else read_text s1 path))"

text \<open>
  The storing part of \<^verbatim>\<open>_knowledge_write\<close>, from \<^verbatim>\<open>_ensure_dir(ctx)\<close> to the
  \<^verbatim>\<open>write_text\<close> of either branch. \<^verbatim>\<open>path.exists()\<close> is only asked in append mode.
\<close>

definition write_content :: "fs \<Rightarrow> path \<Rightarrow> pystr \<Rightarrow> pystr \<Rightarrow> (py_error + unit) \<times> fs" where
  "write_content s path content mode =
     (case ensure_dir s of
        (Inl e, s1) \<Rightarrow> (Inl e, s1)
      | (Inr u, s1) \<Rightarrow>
          (case (if mode = py ''append'' then path_exists s1 path else (False, s1)) of
             (ex, s2) \<Rightarrow>
               if mode = py ''append'' \<and> ex then
                 (case read_text s2 path of
                    (Inl e, s3) \<Rightarrow> (Inl e, s3)
                  | (Inr existing, s3) \<Rightarrow>
                      write_text s3 path
                        ((if existing \<noteq> [] \<and> \<not> endswith existing [10]
                          then existing @ [10] else existing) @ content))
               else write_text s2 path content))"

definition knowledge_write ::
    "fs \<Rightarrow> pystr \<Rightarrow> pystr \<Rightarrow> pystr \<Rightarrow> (py_error + pystr) \<times> fs" where
  "knowledge_write s topic content mode =
     (case safe_path s topic of
        Inl (ValueError e) \<Rightarrow> (Inr (invalid_topic_msg e), s)
      | Inl other \<Rightarrow> (Inl other, s)
      | Inr path \<Rightarrow>
          if mode \<noteq> py ''overwrite'' \<and> mode \<noteq> py ''append''
          then (Inr (invalid_mode_msg mode), s)
          else
            (case write_content s path content mode of
               (Inl e, s1) \<Rightarrow> (Inl e, s1)
             | (Inr u, s1) \<Rightarrow>
                 (case update_index s1 of
                    (Inl e, s2) \<Rightarrow> (Inl e, s2)
                  | (Inr v, s2) \<Rightarrow> (Inr (saved_msg topic mode), s2))))"

definition knowledge_list :: "fs \<Rightarrow> (py_error + pystr) \<times> fs" where
  "knowledge_list s =
     (case path_exists s (Child INDEX_FILE) of
        (ex, s1) \<Rightarrow>
          if ex then read_text s1 (Child INDEX_FILE)
          else
            (case path_exists s1 Base of
               (kex, s2) \<Rightarrow>
                 if kex then
                   (case update_index s2 of
                      (Inl e, s3) \<Rightarrow> (Inl e, s3)
                    | (Inr u, s3) \<Rightarrow>
                        (case path_exists s3 (Child INDEX_FILE) of
                           (ex2, s4) \<Rightarrow>
                             if ex2 then read_text s4 (Child INDEX_FILE)
                             else (Inr empty_msg, s4)))
                 else (Inr empty_msg, s2)))"

section \<open>The specification's notions\<close>

text \<open>
  The file operations a run has added to the log, and the kinds of operation: one
  \<open>OpList\<close> is one scan of the directory, which only the index rebuild makes.
\<close>

definition new_ops :: "fs \<Rightarrow> fs \<Rightarrow> fsop list" where
  "new_ops s s' = drop (length (oplog s)) (oplog s')"


text \<open>
  The summary of an entry in two readings. \<open>claimed_summary\<close> follows the claim's words:
  take the first non-blank line, then strip whitespace and leading \<^verbatim>\<open>#\<close> marks and cut to
  120 characters. \<open>cleaned_summary\<close> chooses the line after the stripping instead: the
  first line of which something is left once it is stripped.
\<close>

definition blank :: "pystr \<Rightarrow> bool" where
  "blank l = (strip l = [])"

definition claimed_summary :: "pystr \<Rightarrow> pystr" where
  "claimed_summary content =
     (case filter (\<lambda>l. \<not> blank l) (split_on 10 (strip content)) of
        [] \<Rightarrow> []
      | l # ls \<Rightarrow> take 120 (clean_line l))"

definition cleaned_summary :: "pystr \<Rightarrow> pystr" where
  "cleaned_summary content =
     (case filter (\<lambda>l. clean_line l \<noteq> []) (split_on 10 (strip content)) of
        [] \<Rightarrow> []
      | l # ls \<Rightarrow> take 120 (clean_line l))"

text \<open>
  The index as a function of the directory: the entries are the names that end in
  \<^verbatim>\<open>.md\<close> other than the index file's, in sorted order; each gives one line, with the
  summary of its text or the unreadable marker; no entry gives the empty marker.
\<close>

definition entry_names :: "fs \<Rightarrow> pystr list" where
  "entry_names s = filter (\<lambda>n. n \<noteq> INDEX_FILE) (glob_md s)"

definition index_line :: "(pystr \<Rightarrow> pystr) \<Rightarrow> fs \<Rightarrow> pystr \<Rightarrow> pystr" where
  "index_line summ s n =
     py ''- **'' @ stem n @ py ''**: ''
     @ (case fst (read_text s (Child n)) of
          Inr content \<Rightarrow> summ content
        | Inl e \<Rightarrow> py ''(unreadable)'')"

definition index_of :: "(pystr \<Rightarrow> pystr) \<Rightarrow> fs \<Rightarrow> pystr" where
  "index_of summ s =
     py ''# Knowledge Base Index'' @ [10, 10]
     @ (if entry_names s = [] then py ''(empty)'' @ [10]
        else concat (map (\<lambda>n. index_line summ s n @ [10]) (entry_names s)))"


section \<open>Example stores\<close>

text \<open>
  Concrete states of the file system on which the handlers are run: a store where nothing
  exists yet; a store with a planted symbolic link that leads out of the directory; and a
  store whose only entry starts with a line of heading marks alone.
\<close>

definition fresh_store :: fs where
  "fresh_store = \<lparr>kreal = py ''/kb'', links = [], nodes = [], oplog = []\<rparr>"

definition planted_store :: fs where
  "planted_store =
     \<lparr>kreal = py ''/kb'', links = [(py ''leak.md'', py ''/etc/passwd'')],
      nodes = [(py ''/kb'', Dir), (py ''/etc/passwd'', File (py ''root''))], oplog = []\<rparr>"

definition heading_store :: fs where
  "heading_store =
     \<lparr>kreal = py ''/kb'', links = [],
      nodes = [(py ''/kb'', Dir), (py ''/kb/a.md'', File [35, 10, 120])], oplog = []\<rparr>"






definition index_link_store :: fs where
  "index_link_store =
     \<lparr>kreal = py ''/kb'', links = [(py ''_index.md'', py ''/etc/motd'')],
      nodes = [(py ''/'', Dir), (py ''/kb'', Dir), (py ''/etc'', Dir),
               (py ''/etc/motd'', File (py ''welcome''))],
      oplog = []\<rparr>"



section \<open>Properties of the string operations\<close>

lemma strip_Nil: "strip [] = []"
  by (simp add: strip_def)

lemma strip_no_leading_space: "strip s \<noteq> [] \<Longrightarrow> \<not> isspace (hd (strip s))"
proof -
  assume ne: "strip s \<noteq> []"
  let ?d = "dropWhile isspace s"
  have d_ne: "?d \<noteq> []"
  proof
    assume "?d = []"
    then have "strip s = []" unfolding strip_def by (simp del: dropWhile_eq_Nil_conv)
    with ne show False by simp
  qed
  then have hd_d: "\<not> isspace (hd ?d)" by (simp add: hd_dropWhile)
  have "\<exists>x \<in> set (rev ?d). \<not> isspace x"
    using d_ne hd_d by (metis hd_in_set set_rev)
  then have ne2: "dropWhile isspace (rev ?d) \<noteq> []"
    by simp
  have "rev ?d = takeWhile isspace (rev ?d) @ dropWhile isspace (rev ?d)"
    by simp
  then obtain k where k: "rev ?d = k @ dropWhile isspace (rev ?d)" ..
  have "?d = rev (dropWhile isspace (rev ?d)) @ rev k"
    using k by (metis rev_append rev_rev_ident)
  then have "hd ?d = hd (strip s)"
    using ne2 by (metis hd_append2 rev_is_Nil_conv strip_def)
  then show ?thesis using hd_d by simp
qed

lemma strip_no_trailing_space: "strip s \<noteq> [] \<Longrightarrow> \<not> isspace (last (strip s))"
proof -
  assume ne: "strip s \<noteq> []"
  let ?r = "dropWhile isspace (rev (dropWhile isspace s))"
  have r_ne: "?r \<noteq> []" using ne by (simp add: strip_def)
  then have "\<not> isspace (hd ?r)" by (simp add: hd_dropWhile)
  moreover have "last (strip s) = hd ?r"
    using r_ne by (simp add: strip_def last_rev)
  ultimately show ?thesis by simp
qed

lemma strip_idem_clean:
  "t \<noteq> [] \<Longrightarrow> \<not> isspace (hd t) \<Longrightarrow> \<not> isspace (last t) \<Longrightarrow> strip t = t"
proof -
  assume ne: "t \<noteq> []" and h: "\<not> isspace (hd t)" and l: "\<not> isspace (last t)"
  have d: "dropWhile isspace t = t"
    using ne h by (cases t) auto
  have "rev t \<noteq> []" using ne by simp
  moreover have "\<not> isspace (hd (rev t))" using ne l by (simp add: hd_rev)
  ultimately have "dropWhile isspace (rev t) = rev t"
    by (cases "rev t") auto
  then show ?thesis by (simp add: strip_def d)
qed



lemma alnum_topic_char: "alnum c \<Longrightarrow> topic_char c"
  by (simp add: topic_char_def)

lemma VALID_TOPIC_strip: "VALID_TOPIC (strip s) = topic_body (strip s)"
proof (cases "strip s = []")
  case True
  then show ?thesis by (simp add: VALID_TOPIC_def)
next
  case False
  then have "\<not> isspace (last (strip s))" by (rule strip_no_trailing_space)
  then have "last (strip s) \<noteq> 10" by (auto simp: isspace_def)
  then show ?thesis by (simp add: VALID_TOPIC_def)
qed

lemma list_all_ends:
  "2 \<le> length s \<Longrightarrow> list_all P s = (P (hd s) \<and> list_all P (butlast (tl s)) \<and> P (last s))"
proof -
  assume len: "2 \<le> length s"
  then obtain x m where s: "s = x # m" by (cases s) auto
  with len have "m \<noteq> []" by auto
  have "list_all P (butlast m @ [last m]) = (list_all P (butlast m) \<and> P (last m))"
    by simp
  with \<open>m \<noteq> []\<close> have "list_all P m = (list_all P (butlast m) \<and> P (last m))"
    by simp
  then show ?thesis using s \<open>m \<noteq> []\<close> by auto
qed

lemma topic_body_iff:
  "topic_body t =
     (t \<noteq> [] \<and> length t \<le> 100 \<and> list_all topic_char t \<and> alnum (hd t) \<and> alnum (last t))"
proof (cases "2 \<le> length t")
  case True
  then have "t \<noteq> []" by auto
  with True show ?thesis
    using list_all_ends [OF True, of topic_char]
    by (auto simp: topic_body_def alnum_topic_char)
next
  case False
  show ?thesis
  proof (cases t)
    case Nil
    then show ?thesis by (simp add: topic_body_def)
  next
    case (Cons x m)
    with False have "m = []" by (cases m) auto
    with Cons show ?thesis by (auto simp: topic_body_def alnum_topic_char)
  qed
qed

lemma lower_RESERVED: "r \<in> set RESERVED \<Longrightarrow> lower r = r"
  by (auto simp: RESERVED_def lower_def py_def)

lemma sanitize_topic_Inr_iff:
  "sanitize_topic raw = Inr t \<longleftrightarrow> (t = strip raw \<and> \<not> spec_rejects (strip raw))"
proof -
  have res: "(\<exists>r \<in> set RESERVED. lower (strip raw) = lower r) = (lower (strip raw) \<in> set RESERVED)"
    using lower_RESERVED by force
  show ?thesis
  proof (cases "raw = []")
    case True
    then show ?thesis by (simp add: sanitize_topic_def spec_rejects_def strip_Nil)
  next
    case False
    then show ?thesis
      unfolding sanitize_topic_def spec_rejects_def Let_def res VALID_TOPIC_strip topic_body_iff
      by (auto simp: list_all_iff)
  qed
qed

lemma sanitize_topic_error: "sanitize_topic raw = Inl e \<Longrightarrow> \<exists>m. e = ValueError m"
  by (auto simp: sanitize_topic_def Let_def split: if_splits)

section \<open>Properties of the file operations\<close>

lemma logop_simps [simp]:
  "kreal (logop e s) = kreal s" "links (logop e s) = links s" "nodes (logop e s) = nodes s"
  "oplog (logop e s) = oplog s @ [e]"
  by (simp_all add: logop_def)

lemma resolve_cong: "kreal s' = kreal s \<Longrightarrow> links s' = links s \<Longrightarrow> resolve s' p = resolve s p"
  by (cases p) (simp_all add: resolve_def split: option.splits)

lemma resolve_logop [simp]: "resolve (logop e s) p = resolve s p"
  by (rule resolve_cong) simp_all

lemma resolve_oplog_update [simp]: "resolve (s\<lparr>oplog := l\<rparr>) p = resolve s p"
  by (rule resolve_cong) simp_all

lemma resolve_nodes_update [simp]: "resolve (s\<lparr>nodes := l\<rparr>) p = resolve s p"
  by (rule resolve_cong) simp_all

lemma path_exists_fst: "fst (path_exists s p) = (map_of (nodes s) (resolve s p) \<noteq> None)"
  by (simp add: path_exists_def)

lemma path_exists_snd: "snd (path_exists s p) = logop (OpExists (resolve s p)) s"
  by (simp add: path_exists_def)

lemma read_text_snd: "snd (read_text s p) = logop (OpRead (resolve s p)) s"
  by (simp add: read_text_def Let_def split: option.splits node.splits)

lemma read_text_fst_cong:
  "kreal s' = kreal s \<Longrightarrow> links s' = links s \<Longrightarrow> map_of (nodes s') = map_of (nodes s)
   \<Longrightarrow> fst (read_text s' p) = fst (read_text s p)"
proof -
  assume a: "kreal s' = kreal s" "links s' = links s" and m: "map_of (nodes s') = map_of (nodes s)"
  have "resolve s' p = resolve s p" using a by (rule resolve_cong)
  then show ?thesis by (simp add: read_text_def Let_def m split: option.splits node.splits)
qed

lemma read_text_fst_logop [simp]: "fst (read_text (logop e s) p) = fst (read_text s p)"
  by (rule read_text_fst_cong) simp_all

lemma read_text_fst_oplog [simp]: "fst (read_text (s\<lparr>oplog := l\<rparr>) p) = fst (read_text s p)"
  by (rule read_text_fst_cong) simp_all

lemma read_text_eq: "read_text s p = (fst (read_text s p), logop (OpRead (resolve s p)) s)"
  by (metis prod.collapse read_text_snd)

lemma write_text_fields:
  "kreal (snd (write_text s p d)) = kreal s"
  "links (snd (write_text s p d)) = links s"
  "oplog (snd (write_text s p d)) = oplog s @ [OpWrite (resolve s p)]"
  by (simp_all add: write_text_def Let_def split: option.splits node.splits)

lemma write_text_other:
  "k \<noteq> resolve s p \<Longrightarrow> map_of (nodes (snd (write_text s p d))) k = map_of (nodes s) k"
  by (simp add: write_text_def Let_def update_conv' split: option.splits node.splits)

lemma write_text_ok:
  "fst (write_text s p d) = Inr u
   \<Longrightarrow> map_of (nodes (snd (write_text s p d))) (resolve s p) = Some (File d)"
  by (simp add: write_text_def Let_def update_conv' split: option.splits node.splits if_splits)

lemma write_text_fst_cong:
  "kreal s' = kreal s \<Longrightarrow> links s' = links s \<Longrightarrow> map_of (nodes s') = map_of (nodes s)
   \<Longrightarrow> fst (write_text s' p d) = fst (write_text s p d)"
proof -
  assume a: "kreal s' = kreal s" "links s' = links s" and m: "map_of (nodes s') = map_of (nodes s)"
  have "resolve s' p = resolve s p" using a by (rule resolve_cong)
  then show ?thesis by (simp add: write_text_def Let_def m split: option.splits node.splits)
qed


lemma mkdir_parents_ok:
  "fst (mkdir_parents ns c ups) = Inr u
   \<Longrightarrow> map_of (fst (snd (mkdir_parents ns c ups))) c = Some Dir"
  by (cases ups; cases "mkdir_parents ns (hd ups) (tl ups)")
     (auto simp: update_conv' split: option.splits node.splits sum.splits)

lemma mkdir_parents_tried:
  "set (snd (snd (mkdir_parents ns c ups))) \<subseteq> set (c # ups)"
proof (induction ups arbitrary: c)
  case Nil
  show ?case by (simp split: option.splits node.splits)
next
  case (Cons par rest)
  show ?case
    using Cons.IH [of par]
    by (cases "mkdir_parents ns par rest")
       (auto split: option.splits node.splits sum.splits)
qed

lemma mkdir_unfold:
  "mkdir s p =
     (fst (mkdir_parents (nodes s) (resolve s p) (ancestors (resolve s p))),
      s\<lparr>nodes := fst (snd (mkdir_parents (nodes s) (resolve s p) (ancestors (resolve s p)))),
        oplog := oplog s @ map OpMkdir
           (snd (snd (mkdir_parents (nodes s) (resolve s p) (ancestors (resolve s p)))))\<rparr>)"
  by (simp add: mkdir_def Let_def case_prod_beta)

lemma mkdir_fields:
  "kreal (snd (mkdir s p)) = kreal s"
  "links (snd (mkdir s p)) = links s"
  by (simp_all add: mkdir_unfold)

lemma mkdir_oplog:
  "\<exists>tried. oplog (snd (mkdir s p)) = oplog s @ map OpMkdir tried
           \<and> set tried \<subseteq> set (resolve s p # ancestors (resolve s p))"
  using mkdir_parents_tried [of "nodes s" "resolve s p" "ancestors (resolve s p)"]
  by (auto simp: mkdir_unfold)



lemma mkdir_ok:
  "fst (mkdir s p) = Inr u \<Longrightarrow> map_of (nodes (snd (mkdir s p))) (resolve s p) = Some Dir"
  using mkdir_parents_ok [of "nodes s" "resolve s p" "ancestors (resolve s p)" u]
  by (simp add: mkdir_unfold)


lemma glob_md_oplog [simp]: "glob_md (s\<lparr>oplog := l\<rparr>) = glob_md s"
  by (simp add: glob_md_def listdir_def)

lemma glob_md_logop [simp]: "glob_md (logop e s) = glob_md s"
  by (simp add: glob_md_def listdir_def)

lemma index_entries_eq:
  "index_entries s ns =
     (map (\<lambda>n. entry_line (stem n) (fst (read_text s (Child n)))) (filter (\<lambda>n. n \<noteq> INDEX_FILE) ns),
      s\<lparr>oplog := oplog s @ map (\<lambda>n. OpRead (resolve s (Child n))) (filter (\<lambda>n. n \<noteq> INDEX_FILE) ns)\<rparr>)"
proof (induction ns arbitrary: s)
  case Nil
  show ?case by simp
next
  case (Cons n ns)
  show ?case
  proof (cases "n = INDEX_FILE")
    case True
    then show ?thesis using Cons.IH [of s] by simp
  next
    case False
    have rt: "read_text s (Child n) = (fst (read_text s (Child n)), logop (OpRead (resolve s (Child n))) s)"
      by (rule read_text_eq)
    show ?thesis
      using False
      by (subst index_entries.simps, subst rt) (simp add: Cons.IH logop_def)
  qed
qed

lemma first_line_filter:
  "first_line ls =
     (case filter (\<lambda>l. clean_line l \<noteq> []) ls of [] \<Rightarrow> [] | l # r \<Rightarrow> take 120 (clean_line l))"
  by (induction ls) (simp_all add: Let_def)

lemma summary_cleaned: "summary content = cleaned_summary content"
  by (simp add: summary_def cleaned_summary_def first_line_filter)

lemma join_lines: "xs \<noteq> [] \<Longrightarrow> join sep xs @ sep = concat (map (\<lambda>x. x @ sep) xs)"
  by (induction sep xs rule: join.induct) simp_all

lemma entry_line_index_line:
  "entry_line (stem n) (fst (read_text s (Child n))) = index_line summary s n"
  by (simp add: entry_line_def index_line_def py_def split: sum.splits)

lemma index_content_eq:
  "index_content (map (\<lambda>n. entry_line (stem n) (fst (read_text s (Child n)))) (entry_names s))
   = index_of summary s"
proof (cases "entry_names s = []")
  case True
  then show ?thesis by (simp add: index_content_def index_of_def)
next
  case False
  then show ?thesis
    by (simp add: index_content_def index_of_def join_lines entry_line_index_line comp_def)
qed

lemma resolve_Base [simp]: "resolve s Base = kreal s"
  by (simp add: resolve_def)

lemma entry_names_oplog [simp]: "entry_names (s\<lparr>oplog := l\<rparr>) = entry_names s"
  by (simp add: entry_names_def)

lemma index_line_oplog [simp]: "index_line f (s\<lparr>oplog := l\<rparr>) n = index_line f s n"
  by (simp add: index_line_def)

lemma index_of_oplog [simp]: "index_of f (s\<lparr>oplog := l\<rparr>) = index_of f s"
  by (simp add: index_of_def)

lemma update_index_absent:
  "map_of (nodes s) (kreal s) = None \<Longrightarrow> update_index s = (Inr (), logop (OpExists (kreal s)) s)"
  by (simp add: update_index_def path_exists_def)

lemma update_index_present:
  "map_of (nodes s) (kreal s) \<noteq> None \<Longrightarrow>
   update_index s =
     write_text
       (s\<lparr>oplog := oplog s @ [OpExists (kreal s), OpList (kreal s)]
                @ map (\<lambda>n. OpRead (resolve s (Child n))) (entry_names s)\<rparr>)
       (Child INDEX_FILE) (index_of summary s)"
  by (simp add: update_index_def path_exists_def sorted_glob_def index_entries_eq
      entry_names_def [symmetric] index_content_eq logop_def)


lemma safe_path_error: "safe_path s topic = Inl e \<Longrightarrow> \<exists>m. e = ValueError m"
  by (auto simp: safe_path_def Let_def split: sum.splits if_splits dest: sanitize_topic_error)

lemma safe_path_Inr:
  "safe_path s topic = Inr p \<Longrightarrow>
   \<exists>t. sanitize_topic topic = Inr t \<and> p = Child (t @ py ''.md'')
       \<and> (startswith (resolve s p) (kreal s @ py ''/'') \<or> resolve s p = kreal s)"
  by (auto simp: safe_path_def Let_def split: sum.splits if_splits)

lemma knowledge_read_invalid:
  "safe_path s topic = Inl (ValueError m) \<Longrightarrow> knowledge_read s topic = (Inr (invalid_topic_msg m), s)"
  by (simp add: knowledge_read_def)

lemma knowledge_read_valid:
  "safe_path s topic = Inr p \<Longrightarrow>
   knowledge_read s topic =
     (if map_of (nodes s) (resolve s p) = None
      then (Inr (not_found_msg topic), logop (OpExists (resolve s p)) s)
      else (fst (read_text s p),
            s\<lparr>oplog := oplog s @ [OpExists (resolve s p), OpRead (resolve s p)]\<rparr>))"
  by (simp add: knowledge_read_def path_exists_def prod_eq_iff read_text_snd logop_def)

lemma knowledge_write_invalid:
  "safe_path s topic = Inl (ValueError m)
   \<Longrightarrow> knowledge_write s topic content mode = (Inr (invalid_topic_msg m), s)"
  by (simp add: knowledge_write_def)

lemma split_on_nonempty [simp]: "split_on d xs \<noteq> []"
  by (induction xs) simp_all

lemma split_on_append: "split_on d (a @ d # r) = split_on d a @ split_on d r"
  by (induction a) simp_all

lemma startswith_contained:
  assumes "startswith c (b @ py ''/'')" shows "contained b c"
proof -
  have "take (length b + 1) c = b @ [47]"
    using assms by (simp add: startswith_def py_def)
  then have "c = b @ 47 # drop (length b + 1) c"
    by (metis append_take_drop_id append.assoc append_Cons append_Nil)
  then have "path_parts c = path_parts b @ path_parts (drop (length b + 1) c)"
    unfolding path_parts_def by (metis filter_append split_on_append)
  then show ?thesis by (simp add: contained_def)
qed

lemma contained_refl [simp]: "contained b b"
  by (simp add: contained_def)

lemma safe_path_contained: "safe_path s topic = Inr p \<Longrightarrow> contained (kreal s) (resolve s p)"
  by (auto dest!: safe_path_Inr intro: startswith_contained)


lemma resolve_snd_mkdir [simp]: "resolve (snd (mkdir s q)) p = resolve s p"
  by (rule resolve_cong) (simp_all add: mkdir_fields)

lemma resolve_snd_write_text [simp]: "resolve (snd (write_text s q d)) p = resolve s p"
  by (rule resolve_cong) (simp_all add: write_text_fields)

lemma write_content_unfold:
  "write_content s p content mode =
     (let s1 = snd (mkdir s Base) in
      case fst (mkdir s Base) of
        Inl e \<Rightarrow> (Inl e, s1)
      | Inr u \<Rightarrow>
          if mode = py ''append'' \<and> map_of (nodes s1) (resolve s p) \<noteq> None
          then
            (let s2 = s1\<lparr>oplog := oplog s1 @ [OpExists (resolve s p), OpRead (resolve s p)]\<rparr> in
             case fst (read_text s1 p) of
               Inl e \<Rightarrow> (Inl e, s2)
             | Inr existing \<Rightarrow>
                 write_text s2 p
                   ((if existing \<noteq> [] \<and> \<not> endswith existing [10]
                     then existing @ [10] else existing) @ content))
          else if mode = py ''append''
          then write_text (s1\<lparr>oplog := oplog s1 @ [OpExists (resolve s p)]\<rparr>) p content
          else write_text s1 p content)"
  by (simp add: write_content_def ensure_dir_def case_prod_beta path_exists_def read_text_snd
      logop_def mkdir_fields Let_def split: sum.splits)


lemma write_content_ops:
  "list_all (\<lambda>e. op_target e = resolve s p
                \<or> (\<exists>q \<in> set (kreal s # ancestors (kreal s)). e = OpMkdir q))
     (new_ops s (snd (write_content s p content mode)))"
proof -
  obtain tried where t: "oplog (snd (mkdir s Base)) = oplog s @ map OpMkdir tried"
    and sub: "set tried \<subseteq> set (kreal s # ancestors (kreal s))"
    using mkdir_oplog [of s Base] by auto
  have "list_all (\<lambda>e. \<exists>q \<in> set (kreal s # ancestors (kreal s)). e = OpMkdir q)
          (map OpMkdir tried)"
    using sub by (auto simp: list_all_iff)
  then show ?thesis
    by (simp add: write_content_unfold new_ops_def Let_def write_text_fields t
        list_all_iff split: sum.splits)
qed

lemma knowledge_read_ops:
  "safe_path s topic = Inr p \<Longrightarrow>
   list_all (\<lambda>e. op_target e = resolve s p) (new_ops s (snd (knowledge_read s topic)))"
  by (simp add: knowledge_read_valid new_ops_def)

lemma safe_path_sanitize_Inl: "sanitize_topic topic = Inl e \<Longrightarrow> safe_path s topic = Inl e"
  by (simp add: safe_path_def)

lemma safe_path_escape:
  assumes t: "sanitize_topic topic = Inr t"
    and esc: "\<not> contained (resolve s Base) (resolve s (Child (t @ py ''.md'')))"
  shows "safe_path s topic = Inl (ValueError (py ''Path escape detected: '' @ t))"
proof -
  let ?c = "resolve s (Child (t @ py ''.md''))"
  have "\<not> startswith ?c (kreal s @ py ''/'')"
    using esc startswith_contained by auto
  moreover have "?c \<noteq> kreal s" using esc by auto
  ultimately show ?thesis using t by (simp add: safe_path_def Let_def)
qed

lemma write_text_fst_oplog [simp]:
  "fst (write_text (s\<lparr>oplog := l\<rparr>) p d) = fst (write_text s p d)"
  by (rule write_text_fst_cong) simp_all

lemma update_index_fst:
  "fst (update_index s) =
     (if map_of (nodes s) (kreal s) = None then Inr ()
      else fst (write_text s (Child INDEX_FILE) (index_of summary s)))"
  by (simp add: update_index_absent update_index_present)


lemma update_index_oplog:
  "oplog (snd (update_index s)) =
     oplog s @
     (if map_of (nodes s) (kreal s) = None then [OpExists (kreal s)]
      else [OpExists (kreal s), OpList (kreal s)]
           @ map (\<lambda>n. OpRead (resolve s (Child n))) (entry_names s)
           @ [OpWrite (resolve s (Child INDEX_FILE))])"
  by (simp add: update_index_absent update_index_present write_text_fields)

lemma update_index_other:
  "k \<noteq> resolve s (Child INDEX_FILE)
   \<Longrightarrow> map_of (nodes (snd (update_index s))) k = map_of (nodes s) k"
  by (cases "map_of (nodes s) (kreal s) = None")
     (simp_all add: update_index_absent update_index_present write_text_other)

lemma update_index_ok:
  assumes "map_of (nodes s) (kreal s) \<noteq> None" and "fst (update_index s) = Inr u"
  shows "map_of (nodes (snd (update_index s))) (resolve s (Child INDEX_FILE))
           = Some (File (index_of summary s))"
proof -
  let ?S = "s\<lparr>oplog := oplog s @ [OpExists (kreal s), OpList (kreal s)]
                @ map (\<lambda>n. OpRead (resolve s (Child n))) (entry_names s)\<rparr>"
  have eq: "update_index s = write_text ?S (Child INDEX_FILE) (index_of summary s)"
    using assms(1) by (rule update_index_present)
  then have "fst (write_text ?S (Child INDEX_FILE) (index_of summary s)) = Inr u"
    using assms(2) by simp
  then have "map_of (nodes (snd (write_text ?S (Child INDEX_FILE) (index_of summary s))))
               (resolve ?S (Child INDEX_FILE)) = Some (File (index_of summary s))"
    by (rule write_text_ok)
  then show ?thesis by (simp add: eq)
qed

lemma index_of_cong: "(\<And>c. f c = g c) \<Longrightarrow> index_of f s = index_of g s"
proof -
  assume "\<And>c. f c = g c"
  then have "f = g" by (rule ext)
  then show ?thesis by simp
qed

lemma index_of_summary: "index_of summary s = index_of cleaned_summary s"
  by (rule index_of_cong) (rule summary_cleaned)

lemma entry_names_sorted: "sorted (entry_names s)"
  by (simp add: entry_names_def glob_md_def sorted_wrt_filter)

lemma entry_names_distinct: "distinct (entry_names s)"
  by (simp add: entry_names_def glob_md_def listdir_def)

lemma entry_names_set:
  "set (entry_names s) = {n \<in> set (listdir s). endswith n (py ''.md'') \<and> n \<noteq> INDEX_FILE}"
  by (auto simp: entry_names_def glob_md_def)


section \<open>Properties of the handlers\<close>







lemma write_content_fields:
  "kreal (snd (write_content s p content mode)) = kreal s"
  "links (snd (write_content s p content mode)) = links s"
  by (simp_all add: write_content_unfold Let_def write_text_fields mkdir_fields split: sum.splits)

lemma knowledge_write_valid:
  "safe_path s topic = Inr p \<Longrightarrow> mode = py ''overwrite'' \<or> mode = py ''append'' \<Longrightarrow>
   knowledge_write s topic content mode =
     (case fst (write_content s p content mode) of
        Inl e \<Rightarrow> (Inl e, snd (write_content s p content mode))
      | Inr u \<Rightarrow>
          (case fst (update_index (snd (write_content s p content mode))) of
             Inl e \<Rightarrow> (Inl e, snd (update_index (snd (write_content s p content mode))))
           | Inr v \<Rightarrow> (Inr (saved_msg topic mode),
                       snd (update_index (snd (write_content s p content mode))))))"
  by (auto simp: knowledge_write_def case_prod_beta split: sum.splits)





























lemma write_content_oplog:
  "\<exists>es. oplog (snd (write_content s p content mode)) = oplog s @ es
        \<and> list_all (\<lambda>e. op_target e = resolve s p
                          \<or> (\<exists>q \<in> set (kreal s # ancestors (kreal s)). e = OpMkdir q)) es"
proof -
  obtain tried where t: "oplog (snd (mkdir s Base)) = oplog s @ map OpMkdir tried"
    and sub: "set tried \<subseteq> set (kreal s # ancestors (kreal s))"
    using mkdir_oplog [of s Base] by auto
  have m: "list_all (\<lambda>e. op_target e = resolve s p
                          \<or> (\<exists>q \<in> set (kreal s # ancestors (kreal s)). e = OpMkdir q))
             (map OpMkdir tried)"
    using sub by (auto simp: list_all_iff)
  show ?thesis
    using m
    by (auto simp: write_content_unfold Let_def write_text_fields t split: sum.splits)
qed

lemma path_parts_root: "path_parts (py ''/'') = []"
  by (simp add: path_parts_def py_def)

lemma child_contained: "contained k (child k n)"
proof (cases "k = py ''/''")
  case True
  then show ?thesis by (simp add: contained_def path_parts_root)
next
  case False
  then have "startswith (child k n) (k @ py ''/'')"
    by (simp add: child_def startswith_def)
  then show ?thesis by (rule startswith_contained)
qed

lemma resolve_contained:
  assumes "\<forall>n t. map_of (links s) n = Some t \<longrightarrow> contained (kreal s) t"
  shows "contained (kreal s) (resolve s p)"
  using assms by (cases p) (auto simp: resolve_def child_contained split: option.splits)

lemma update_index_ops:
  "\<exists>es. oplog (snd (update_index s)) = oplog s @ es
        \<and> list_all (\<lambda>e. \<exists>p. op_target e = resolve s p) es"
proof -
  have b: "\<exists>p. kreal s = resolve s p" by (rule exI [of _ Base]) simp
  show ?thesis
    using b by (auto simp: update_index_oplog list_all_iff)
qed

lemma knowledge_write_ops:
  "\<exists>es. oplog (snd (knowledge_write s topic content mode)) = oplog s @ es
        \<and> list_all (\<lambda>e. (\<exists>p. op_target e = resolve s p)
                          \<or> (\<exists>q \<in> set (ancestors (kreal s)). e = OpMkdir q)) es"
proof (cases "safe_path s topic")
  case (Inl e)
  then obtain m where "e = ValueError m" using safe_path_error by blast
  with Inl show ?thesis by (simp add: knowledge_write_invalid)
next
  case (Inr p)
  show ?thesis
  proof (cases "mode = py ''overwrite'' \<or> mode = py ''append''")
    case False
    with Inr show ?thesis by (simp add: knowledge_write_def)
  next
    case True
    let ?P = "\<lambda>e. (\<exists>p. op_target e = resolve s p)
                 \<or> (\<exists>q \<in> set (ancestors (kreal s)). e = OpMkdir q)"
    let ?w = "write_content s p content mode"
    obtain es1 where w: "oplog (snd ?w) = oplog s @ es1"
      and l1: "list_all (\<lambda>e. op_target e = resolve s p
                          \<or> (\<exists>q \<in> set (kreal s # ancestors (kreal s)). e = OpMkdir q)) es1"
      using write_content_oplog [of s p content mode] by auto
    have b: "kreal s = resolve s Base" by simp
    have P1: "list_all ?P es1"
      using l1 b unfolding list_all_iff by (metis op_target.simps(4) set_ConsD)
    obtain es2 where u: "oplog (snd (update_index (snd ?w))) = oplog (snd ?w) @ es2"
      and l2: "list_all (\<lambda>e. \<exists>p. op_target e = resolve (snd ?w) p) es2"
      using update_index_ops [of "snd ?w"] by auto
    have r: "\<And>q. resolve (snd ?w) q = resolve s q"
      by (rule resolve_cong) (simp_all add: write_content_fields)
    have P2: "list_all ?P es2" using l2 by (simp add: list_all_iff r)
    have "oplog (snd (knowledge_write s topic content mode)) = oplog s @ es1
          \<or> oplog (snd (knowledge_write s topic content mode)) = oplog s @ es1 @ es2"
      by (simp add: knowledge_write_valid [OF Inr True] w u split: sum.splits)
    then show ?thesis using P1 P2 by auto
  qed
qed

lemma new_ops_append: "oplog s' = oplog s @ es \<Longrightarrow> new_ops s s' = es"
  by (simp add: new_ops_def)

section \<open>Evaluation on the example stores\<close>

lemmas eval_defs = py_def strip_def isspace_def startswith_def endswith_def alnum_def topic_char_def
  topic_body_def VALID_TOPIC_def RESERVED_def lower_def INDEX_FILE_def child_def resolve_def dirname_def
  encodable_def child_name_def listdir_def glob_md_def stem_def clean_line_def lstrip_chars_def
  List.map_filter_def Let_def

lemmas op_defs = write_content_def ensure_dir_def mkdir_def write_text_def read_text_def
  path_exists_def logop_def update_index_def sorted_glob_def entry_line_def summary_def
  index_content_def

lemma safe_path_leak:
  "sanitize_topic (py ''leak'') = Inr (py ''leak'')
   \<and> \<not> contained (resolve planted_store Base) (resolve planted_store (Child (py ''leak'' @ py ''.md'')))"
  by (simp add: sanitize_topic_def planted_store_def contained_def path_parts_def eval_defs)

lemma safe_path_fresh_t: "safe_path fresh_store (py ''t'') = Inr (Child (py ''t.md''))"
  by (simp add: safe_path_def sanitize_topic_def fresh_store_def eval_defs)

lemma sanitize_t: "sanitize_topic (py ''t'') = Inr (py ''t'')"
  by (simp add: sanitize_topic_def eval_defs)

lemma contained_fresh_t:
  "contained (resolve fresh_store Base) (resolve fresh_store (Child (py ''t.md'')))"
  by (simp add: fresh_store_def contained_def path_parts_def eval_defs)

lemma bogus_mode: "py ''bogus-mode'' \<noteq> py ''overwrite'' \<and> py ''bogus-mode'' \<noteq> py ''append''"
  by (simp add: py_def)

lemma safe_path_fresh_nonexistent:
  "safe_path fresh_store (py ''nonexistent-topic'') = Inr (Child (py ''nonexistent-topic.md''))
   \<and> map_of (nodes fresh_store) (resolve fresh_store (Child (py ''nonexistent-topic.md''))) = None"
  by (simp add: safe_path_def sanitize_topic_def fresh_store_def eval_defs)

lemma safe_path_fresh_dotdot:
  "safe_path fresh_store (py ''../x'')
     = Inl (ValueError (py ''Invalid characters in topic: ../x''))"
  by (simp add: safe_path_def sanitize_topic_def fresh_store_def eval_defs)

lemma heading_store_base: "map_of (nodes heading_store) (kreal heading_store) \<noteq> None"
  by (simp add: heading_store_def eval_defs)

lemma heading_store_index_path: "resolve heading_store (Child INDEX_FILE) = py ''/kb/_index.md''"
  by (simp add: heading_store_def eval_defs)

lemma heading_store_entries: "entry_names heading_store = [py ''a.md'']"
  by (simp add: entry_names_def heading_store_def eval_defs)

lemma heading_store_text:
  "fst (read_text heading_store (Child (py ''a.md''))) = Inr [35, 10, 120]"
  by (simp add: read_text_def heading_store_def eval_defs)

lemma heading_cleaned: "cleaned_summary [35, 10, 120] = [120]"
  by (simp add: cleaned_summary_def eval_defs)

lemma heading_claimed: "claimed_summary [35, 10, 120] = []"
  by (simp add: claimed_summary_def blank_def eval_defs)

lemma heading_store_index:
  "index_of cleaned_summary heading_store
     = py ''# Knowledge Base Index'' @ [10, 10] @ py ''- **a**: x'' @ [10]"
  by (simp add: index_of_def index_line_def heading_store_entries heading_store_text
      heading_cleaned) (simp add: eval_defs)

lemma heading_store_claimed_index:
  "index_of claimed_summary heading_store
     = py ''# Knowledge Base Index'' @ [10, 10] @ py ''- **a**: '' @ [10]"
  by (simp add: index_of_def index_line_def heading_store_entries heading_store_text
      heading_claimed) (simp add: eval_defs)

lemma heading_store_write_ok:
  "fst (write_text heading_store (Child INDEX_FILE)
         (py ''# Knowledge Base Index'' @ [10, 10] @ py ''- **a**: x'' @ [10])) = Inr ()"
  by (simp add: write_text_def heading_store_def eval_defs)


lemmas run_defs = op_defs eval_defs ancestors_def






lemma cr_normalised: "universal_newlines [97, 13, 98] = [97, 10, 98]"
  by simp





lemma sanitize_t_fixed: "sanitize_topic (py ''t'') = Inr (py ''t'')"
  by (simp add: sanitize_topic_def eval_defs)

























lemma index_link_safe_path:
  "safe_path index_link_store (py ''t'') = Inr (Child (py ''t.md''))"
  by (simp add: safe_path_def sanitize_topic_def index_link_store_def eval_defs)

lemma index_link_write:
  "write_content index_link_store (Child (py ''t.md'')) (py ''hello'') (py ''overwrite'')
     = (Inr (),
        \<lparr>kreal = py ''/kb'', links = [(py ''_index.md'', py ''/etc/motd'')],
         nodes = [(py ''/'', Dir), (py ''/kb'', Dir), (py ''/etc'', Dir),
                  (py ''/etc/motd'', File (py ''welcome'')),
                  (py ''/kb/t.md'', File (py ''hello''))],
         oplog = [OpMkdir (py ''/kb''), OpWrite (py ''/kb/t.md'')]\<rparr>)"
  by (simp add: index_link_store_def run_defs)

lemma index_link_rebuild:
  "update_index
        \<lparr>kreal = py ''/kb'', links = [(py ''_index.md'', py ''/etc/motd'')],
         nodes = [(py ''/'', Dir), (py ''/kb'', Dir), (py ''/etc'', Dir),
                  (py ''/etc/motd'', File (py ''welcome'')),
                  (py ''/kb/t.md'', File (py ''hello''))],
         oplog = [OpMkdir (py ''/kb''), OpWrite (py ''/kb/t.md'')]\<rparr>
     = (Inr (),
        \<lparr>kreal = py ''/kb'', links = [(py ''_index.md'', py ''/etc/motd'')],
         nodes = [(py ''/'', Dir), (py ''/kb'', Dir), (py ''/etc'', Dir),
                  (py ''/etc/motd'',
                   File (py ''# Knowledge Base Index'' @ [10, 10] @ py ''- **t**: hello'' @ [10])),
                  (py ''/kb/t.md'', File (py ''hello''))],
         oplog = [OpMkdir (py ''/kb''), OpWrite (py ''/kb/t.md''), OpExists (py ''/kb''),
                  OpList (py ''/kb''), OpRead (py ''/kb/t.md''),
                  OpWrite (py ''/etc/motd'')]\<rparr>)"
  by (simp add: run_defs)

lemma index_link_run:
  "knowledge_write index_link_store (py ''t'') (py ''hello'') (py ''overwrite'')
     = (Inr (saved_msg (py ''t'') (py ''overwrite'')),
        \<lparr>kreal = py ''/kb'', links = [(py ''_index.md'', py ''/etc/motd'')],
         nodes = [(py ''/'', Dir), (py ''/kb'', Dir), (py ''/etc'', Dir),
                  (py ''/etc/motd'',
                   File (py ''# Knowledge Base Index'' @ [10, 10] @ py ''- **t**: hello'' @ [10])),
                  (py ''/kb/t.md'', File (py ''hello''))],
         oplog = [OpMkdir (py ''/kb''), OpWrite (py ''/kb/t.md''), OpExists (py ''/kb''),
                  OpList (py ''/kb''), OpRead (py ''/kb/t.md''),
                  OpWrite (py ''/etc/motd'')]\<rparr>)"
  by (simp add: knowledge_write_valid [OF index_link_safe_path] index_link_write
      index_link_rebuild)

lemma motd_outside: "\<not> contained (resolve index_link_store Base) (py ''/etc/motd'')"
  by (simp add: index_link_store_def contained_def path_parts_def eval_defs)

lemma motd_before:
  "map_of (nodes index_link_store) (py ''/etc/motd'') = Some (File (py ''welcome''))"
  by (simp add: index_link_store_def py_def)

lemma bare_links_inside:
  "\<forall>n t. map_of (links fresh_store) n = Some t \<longrightarrow> contained (kreal fresh_store) t"
  by (simp add: fresh_store_def)





section \<open>The Sanitizer's verdict\<close>

text \<open>
  C5. For every input string the Sanitizer trims it and rejects it (with a
  \<open>ValueError\<close>) exactly when the trimmed string is empty, longer than 100 characters,
  holds a character outside ASCII letters, digits, underscore, hyphen and dot, holds a
  slash, a backslash or two dots in a row, starts or ends with a character that is not
  alphanumeric, or equals a reserved word (\<open>_index\<close>, \<open>con\<close>, \<open>prn\<close>, \<open>aux\<close>, \<open>nul\<close>)
  in any letter case; otherwise it accepts it and returns the trimmed string.
\<close>

theorem sanitize_topic_spec:
  "(spec_rejects (strip raw) \<longrightarrow> (\<exists>m. sanitize_topic raw = Inl (ValueError m)))
   \<and> (\<not> spec_rejects (strip raw) \<longrightarrow> sanitize_topic raw = Inr (strip raw))"
proof (cases "spec_rejects (strip raw)")
  case True
  then have "\<forall>t. sanitize_topic raw \<noteq> Inr t" by (simp add: sanitize_topic_Inr_iff)
  then obtain e where "sanitize_topic raw = Inl e" by (cases "sanitize_topic raw") auto
  with True show ?thesis using sanitize_topic_error by blast
next
  case False
  then show ?thesis by (simp add: sanitize_topic_Inr_iff)
qed

lemma strip_browser: "strip (py '' browser-automation '') = py ''browser-automation''"
  by (simp add: strip_def py_def isspace_def)

lemma browser_accepted: "\<not> spec_rejects (py ''browser-automation'')"
  by (simp add: spec_rejects_def py_def topic_char_def alnum_def startswith_def RESERVED_def
      lower_def)

lemma CoN_rejected: "spec_rejects (strip (py ''CoN''))"
  by (simp add: spec_rejects_def py_def topic_char_def alnum_def startswith_def RESERVED_def
      lower_def strip_def isspace_def)

theorem sanitize_topic_spec_witness:
  "sanitize_topic (py '' browser-automation '') = Inr (py ''browser-automation'')
   \<and> (\<exists>m. sanitize_topic (py ''CoN'') = Inl (ValueError m))"
  using sanitize_topic_spec [of "py '' browser-automation ''"]
    sanitize_topic_spec [of "py ''CoN''"]
  by (simp add: strip_browser browser_accepted CoN_rejected)

section \<open>Path containment\<close>

text \<open>
  C1, as amended. For every topic string: a topic the Sanitizer rejects is rejected by
  the Path Resolver with the same error. For a topic the Sanitizer accepts as \<open>t\<close>, if
  the canonical form of the candidate \<open>t.md\<close> in the base directory is neither the base
  directory nor below it (by path components), the Path Resolver raises the path-escape
  error, and \<open>read\<close> and \<open>write\<close> return the invalid-topic message and leave the state
  as it was, operation log included: no file operation has run. Whenever the Path
  Resolver returns a path, that path is the candidate and its canonical form lies in the
  base directory; every file operation of \<open>read\<close> acts inside the base directory, and so
  does every file operation by which \<open>write\<close> stores the entry, but for the creation of
  the base directory's missing ancestors. The index rebuild that \<open>write\<close> runs afterwards
  acts through the symbolic links that stand in the directory; if none of them leads
  outside, every file operation of the whole \<open>write\<close> acts inside the base directory or
  creates one of its ancestors.
\<close>

theorem safe_path_containment:
  "(\<forall>e. sanitize_topic topic = Inl e \<longrightarrow> safe_path s topic = Inl e)
   \<and> (\<forall>t. sanitize_topic topic = Inr t \<longrightarrow>
         (\<not> contained (resolve s Base) (resolve s (Child (t @ py ''.md''))) \<longrightarrow>
            safe_path s topic = Inl (ValueError (py ''Path escape detected: '' @ t))
            \<and> knowledge_read s topic
                = (Inr (invalid_topic_msg (py ''Path escape detected: '' @ t)), s)
            \<and> knowledge_write s topic content mode
                = (Inr (invalid_topic_msg (py ''Path escape detected: '' @ t)), s))
         \<and> (\<forall>p. safe_path s topic = Inr p \<longrightarrow>
               p = Child (t @ py ''.md'')
               \<and> contained (resolve s Base) (resolve s p)
               \<and> list_all (\<lambda>e. contained (resolve s Base) (op_target e))
                    (new_ops s (snd (knowledge_read s topic)))
               \<and> list_all (\<lambda>e. contained (resolve s Base) (op_target e)
                                \<or> (\<exists>q \<in> set (ancestors (kreal s)). e = OpMkdir q))
                    (new_ops s (snd (write_content s p content mode)))))
   \<and> ((\<forall>n t. map_of (links s) n = Some t \<longrightarrow> contained (kreal s) t) \<longrightarrow>
         list_all (\<lambda>e. contained (resolve s Base) (op_target e)
                         \<or> (\<exists>q \<in> set (ancestors (kreal s)). e = OpMkdir q))
           (new_ops s (snd (knowledge_write s topic content mode))))"
proof (intro conjI allI impI)
  fix e assume "sanitize_topic topic = Inl e"
  then show "safe_path s topic = Inl e" by (rule safe_path_sanitize_Inl)
next
  fix t
  assume t: "sanitize_topic topic = Inr t"
    and esc: "\<not> contained (resolve s Base) (resolve s (Child (t @ py ''.md'')))"
  then show sp: "safe_path s topic = Inl (ValueError (py ''Path escape detected: '' @ t))"
    by (rule safe_path_escape)
  show "knowledge_read s topic = (Inr (invalid_topic_msg (py ''Path escape detected: '' @ t)), s)"
    using sp by (rule knowledge_read_invalid)
  show "knowledge_write s topic content mode
          = (Inr (invalid_topic_msg (py ''Path escape detected: '' @ t)), s)"
    using sp by (rule knowledge_write_invalid)
next
  fix t p
  assume t: "sanitize_topic topic = Inr t" and p: "safe_path s topic = Inr p"
  show "p = Child (t @ py ''.md'')" using safe_path_Inr [OF p] t by auto
  have c: "contained (kreal s) (resolve s p)" using p by (rule safe_path_contained)
  then show "contained (resolve s Base) (resolve s p)" by simp
  have "list_all (\<lambda>e. op_target e = resolve s p) (new_ops s (snd (knowledge_read s topic)))"
    using p by (rule knowledge_read_ops)
  then show "list_all (\<lambda>e. contained (resolve s Base) (op_target e))
               (new_ops s (snd (knowledge_read s topic)))"
    using c by (simp add: list_all_iff)
  have "list_all (\<lambda>e. op_target e = resolve s p
                       \<or> (\<exists>q \<in> set (kreal s # ancestors (kreal s)). e = OpMkdir q))
          (new_ops s (snd (write_content s p content mode)))"
    by (rule write_content_ops)
  then show "list_all (\<lambda>e. contained (resolve s Base) (op_target e)
                            \<or> (\<exists>q \<in> set (ancestors (kreal s)). e = OpMkdir q))
               (new_ops s (snd (write_content s p content mode)))"
    using c by (auto simp: list_all_iff)
next
  assume inside: "\<forall>n t. map_of (links s) n = Some t \<longrightarrow> contained (kreal s) t"
  obtain es where o: "oplog (snd (knowledge_write s topic content mode)) = oplog s @ es"
    and l: "list_all (\<lambda>e. (\<exists>p. op_target e = resolve s p)
                          \<or> (\<exists>q \<in> set (ancestors (kreal s)). e = OpMkdir q)) es"
    using knowledge_write_ops [of s topic content mode] by auto
  have "\<And>p. contained (kreal s) (resolve s p)"
    using inside by (rule resolve_contained)
  then have "list_all (\<lambda>e. contained (resolve s Base) (op_target e)
                            \<or> (\<exists>q \<in> set (ancestors (kreal s)). e = OpMkdir q)) es"
    using l by (auto simp: list_all_iff)
  then show "list_all (\<lambda>e. contained (resolve s Base) (op_target e)
                            \<or> (\<exists>q \<in> set (ancestors (kreal s)). e = OpMkdir q))
               (new_ops s (snd (knowledge_write s topic content mode)))"
    using new_ops_append [OF o] by simp
qed

theorem safe_path_containment_witness:
  "knowledge_read planted_store (py ''leak'')
     = (Inr (invalid_topic_msg (py ''Path escape detected: '' @ py ''leak'')), planted_store)
   \<and> knowledge_write planted_store (py ''leak'') (py ''x'') (py ''overwrite'')
     = (Inr (invalid_topic_msg (py ''Path escape detected: '' @ py ''leak'')), planted_store)
   \<and> contained (resolve fresh_store Base) (resolve fresh_store (Child (py ''t.md'')))
   \<and> list_all (\<lambda>e. contained (resolve fresh_store Base) (op_target e)
                    \<or> (\<exists>q \<in> set (ancestors (kreal fresh_store)). e = OpMkdir q))
         (new_ops fresh_store
            (snd (knowledge_write fresh_store (py ''t'') (py ''x'') (py ''overwrite''))))"
  using safe_path_containment [of "py ''leak''" planted_store "py ''x''" "py ''overwrite''"]
    safe_path_containment [of "py ''t''" fresh_store "py ''x''" "py ''overwrite''"]
    safe_path_leak safe_path_fresh_t sanitize_t bare_links_inside
  by blast

text \<open>
  The claim as worded fails where the index file is a planted symbolic link: the topic
  \<open>t\<close> passes the Sanitizer and the Path Resolver, \<open>write\<close> stores the entry and
  reports success, and its index rebuild then overwrites the file outside the base
  directory to which the link leads.
\<close>

theorem write_follows_index_link_counterexample:
  "sanitize_topic (py ''t'') = Inr (py ''t'')
   \<and> fst (knowledge_write index_link_store (py ''t'') (py ''hello'') (py ''overwrite''))
       = Inr (saved_msg (py ''t'') (py ''overwrite''))
   \<and> \<not> contained (resolve index_link_store Base) (py ''/etc/motd'')
   \<and> OpWrite (py ''/etc/motd'')
       \<in> set (new_ops index_link_store
                (snd (knowledge_write index_link_store (py ''t'') (py ''hello'')
                       (py ''overwrite''))))
   \<and> map_of (nodes index_link_store) (py ''/etc/motd'') = Some (File (py ''welcome''))
   \<and> map_of (nodes (snd (knowledge_write index_link_store (py ''t'') (py ''hello'')
                          (py ''overwrite''))))
         (py ''/etc/motd'')
       = Some (File (py ''# Knowledge Base Index'' @ [10, 10] @ py ''- **t**: hello'' @ [10]))"
proof -
  have o: "oplog index_link_store = []" by (simp add: index_link_store_def)
  have a: "fst (knowledge_write index_link_store (py ''t'') (py ''hello'') (py ''overwrite''))
             = Inr (saved_msg (py ''t'') (py ''overwrite''))"
    by (simp only: index_link_run fst_conv)
  have b: "OpWrite (py ''/etc/motd'')
       \<in> set (new_ops index_link_store
                (snd (knowledge_write index_link_store (py ''t'') (py ''hello'')
                       (py ''overwrite''))))"
    by (simp only: index_link_run snd_conv) (simp add: new_ops_def o)
  have c: "map_of (nodes (snd (knowledge_write index_link_store (py ''t'') (py ''hello'')
                          (py ''overwrite''))))
         (py ''/etc/motd'')
       = Some (File (py ''# Knowledge Base Index'' @ [10, 10] @ py ''- **t**: hello'' @ [10]))"
    by (simp only: index_link_run snd_conv) (simp add: py_def)
  show ?thesis
    using sanitize_t_fixed a motd_outside b motd_before c by simp
qed


section \<open>The index rebuild\<close>

text \<open>
  C6, as amended. For every state in which the base directory exists, the rebuild fails
  only if writing the index file fails (an unreadable entry never aborts it); when it
  succeeds the index file holds the fixed header followed by one line per entry, or by
  the \<open>(empty)\<close> line when there is none, and no other file has changed. The entries are
  the names of the directory ending in \<^verbatim>\<open>.md\<close> other than the index file's, each once,
  in sorted order. The line of an entry gives its topic and the unreadable marker if its
  content cannot be read, and otherwise its summary: the first line of which something is
  left after stripping whitespace and leading \<^verbatim>\<open>#\<close> marks, so stripped and cut to 120
  characters (a line of \<^verbatim>\<open>#\<close> marks alone is passed over).
\<close>

theorem update_index_writes_index:
  "map_of (nodes s) (kreal s) \<noteq> None \<Longrightarrow>
     fst (update_index s)
       = fst (write_text s (Child INDEX_FILE) (index_of cleaned_summary s))
     \<and> (fst (update_index s) = Inr () \<longrightarrow>
          map_of (nodes (snd (update_index s))) (resolve s (Child INDEX_FILE))
            = Some (File (index_of cleaned_summary s)))
     \<and> (\<forall>k. k \<noteq> resolve s (Child INDEX_FILE) \<longrightarrow>
          map_of (nodes (snd (update_index s))) k = map_of (nodes s) k)
     \<and> sorted (entry_names s) \<and> distinct (entry_names s)
     \<and> set (entry_names s)
         = {n \<in> set (listdir s). endswith n (py ''.md'') \<and> n \<noteq> INDEX_FILE}"
proof -
  assume base: "map_of (nodes s) (kreal s) \<noteq> None"
  have a: "fst (update_index s)
             = fst (write_text s (Child INDEX_FILE) (index_of cleaned_summary s))"
    using base by (auto simp: update_index_fst index_of_summary)
  have b: "fst (update_index s) = Inr () \<longrightarrow>
             map_of (nodes (snd (update_index s))) (resolve s (Child INDEX_FILE))
               = Some (File (index_of cleaned_summary s))"
    using update_index_ok [OF base, of "()"] by (simp add: index_of_summary)
  have c: "\<forall>k. k \<noteq> resolve s (Child INDEX_FILE) \<longrightarrow>
             map_of (nodes (snd (update_index s))) k = map_of (nodes s) k"
    by (simp add: update_index_other)
  show ?thesis
    using a b c entry_names_sorted entry_names_distinct entry_names_set by blast
qed

theorem update_index_writes_index_witness:
  "map_of (nodes (snd (update_index heading_store))) (py ''/kb/_index.md'')
     = Some (File (py ''# Knowledge Base Index'' @ [10, 10] @ py ''- **a**: x'' @ [10]))"
  using update_index_writes_index [of heading_store] heading_store_base heading_store_index_path
    heading_store_index heading_store_write_ok
  by metis

text \<open>
  The claim as worded takes the first non-blank line and strips it afterwards. On an
  entry that reads \<^verbatim>\<open>#\<close>, newline, \<^verbatim>\<open>x\<close> that gives the empty summary, where the
  rebuild writes \<^verbatim>\<open>x\<close>.
\<close>

theorem index_summary_counterexample:
  "fst (update_index heading_store) = Inr ()
   \<and> map_of (nodes (snd (update_index heading_store))) (resolve heading_store (Child INDEX_FILE))
       \<noteq> Some (File (index_of claimed_summary heading_store))"
proof -
  have ok: "fst (update_index heading_store) = Inr ()"
    using heading_store_base heading_store_write_ok
    by (simp add: update_index_fst index_of_summary heading_store_index)
  then have "map_of (nodes (snd (update_index heading_store)))
               (resolve heading_store (Child INDEX_FILE))
             = Some (File (index_of summary heading_store))"
    using heading_store_base update_index_ok by blast
  moreover have "index_of summary heading_store \<noteq> index_of claimed_summary heading_store"
    by (simp add: index_of_summary heading_store_index heading_store_claimed_index)
       (simp add: py_def)
  ultimately show ?thesis using ok by simp
qed

section \<open>Writing with an invalid mode\<close>

text \<open>
  C8. For every topic that the Sanitizer and the Path Resolver accept, every content
  and every mode other than \<open>overwrite\<close> and \<open>append\<close>, \<open>write\<close> returns the
  invalid-mode message and the state it leaves is the state it was given: no directory
  created, no entry written, no index rebuilt, no file operation logged; so a following
  \<open>read\<close> of the topic returns what it returned before.
\<close>

theorem knowledge_write_invalid_mode:
  "safe_path s topic = Inr p \<Longrightarrow> mode \<noteq> py ''overwrite'' \<Longrightarrow> mode \<noteq> py ''append''
   \<Longrightarrow> knowledge_write s topic content mode = (Inr (invalid_mode_msg mode), s)
       \<and> knowledge_read (snd (knowledge_write s topic content mode)) topic = knowledge_read s topic"
  by (simp add: knowledge_write_def)

theorem knowledge_write_invalid_mode_witness:
  "knowledge_write fresh_store (py ''t'') (py ''x'') (py ''bogus-mode'')
     = (Inr (invalid_mode_msg (py ''bogus-mode'')), fresh_store)"
  using knowledge_write_invalid_mode [of fresh_store "py ''t''" "Child (py ''t.md'')"
      "py ''bogus-mode''" "py ''x''"] safe_path_fresh_t bogus_mode
  by blast

section \<open>Reading never mutates\<close>

text \<open>
  C9. For every topic string and every state, \<open>read\<close> leaves the directory, its links
  and every stored node as they were, and runs no mutating file operation (no write, no
  directory creation). A topic that the Sanitizer or the Path Resolver rejects gives the
  invalid-topic message with the state untouched, and a valid topic with no entry gives
  the not-found message: both are returned, not raised.
\<close>

theorem knowledge_read_never_mutates:
  "kreal (snd (knowledge_read s topic)) = kreal s
   \<and> links (snd (knowledge_read s topic)) = links s
   \<and> nodes (snd (knowledge_read s topic)) = nodes s
   \<and> filter is_mutation (new_ops s (snd (knowledge_read s topic))) = []
   \<and> (\<forall>m. safe_path s topic = Inl (ValueError m) \<longrightarrow>
          knowledge_read s topic = (Inr (invalid_topic_msg m), s))
   \<and> (\<forall>p. safe_path s topic = Inr p \<and> map_of (nodes s) (resolve s p) = None \<longrightarrow>
          fst (knowledge_read s topic) = Inr (not_found_msg topic))"
proof (cases "safe_path s topic")
  case (Inl e)
  then obtain m where "e = ValueError m" using safe_path_error by blast
  with Inl show ?thesis by (simp add: knowledge_read_invalid new_ops_def)
next
  case (Inr p)
  then show ?thesis by (simp add: knowledge_read_valid new_ops_def)
qed

theorem knowledge_read_never_mutates_witness:
  "fst (knowledge_read fresh_store (py ''nonexistent-topic''))
     = Inr (not_found_msg (py ''nonexistent-topic''))
   \<and> nodes (snd (knowledge_read fresh_store (py ''nonexistent-topic''))) = nodes fresh_store
   \<and> knowledge_read fresh_store (py ''../x'')
     = (Inr (invalid_topic_msg (py ''Invalid characters in topic: ../x'')), fresh_store)"
  using knowledge_read_never_mutates [of fresh_store "py ''nonexistent-topic''"]
    knowledge_read_never_mutates [of fresh_store "py ''../x''"]
    safe_path_fresh_nonexistent safe_path_fresh_dotdot
  by blast

section \<open>A failing index rebuild\<close>




section \<open>Overwrite and read back\<close>




section \<open>Append\<close>




section \<open>Listing\<close>




section \<open>Padded topics\<close>





end
